theory Spec2Isabelle
  imports Main
begin

section \<open>The permission-matrix editors: data model\<close>

text \<open>
  The repository holds two React client components, \<^verbatim>\<open>GroupRolesClient\<close> and
  \<^verbatim>\<open>SecurityRulesClient\<close>. Both keep a list of entities, the identifier of the selected
  entity, an editing copy of it, a flag for the resource dropdown and the identifier of
  the entity whose deletion awaits confirmation. Every handler reads the state captured
  by the current render and calls the state setters with freshly built arrays and
  objects (spread, \<^verbatim>\<open>map\<close>, \<^verbatim>\<open>filter\<close>; \<^verbatim>\<open>splice\<close> is applied to a
  fresh copy only). No handler mutates an object that another variable refers to, so the
  handlers are modelled as functions from the state to the next state, with values in
  place of object references.
\<close>

datatype Permission = Read | Add | Edit | Modify | Delete | Post

text \<open>
  Identifiers have the TypeScript type \<^verbatim>\<open>number\<close>, a double. The values that occur are
  the integers of the seed data, their successors, the constant \<^verbatim>\<open>0\<close> and
  \<^verbatim>\<open>-Infinity\<close>, which is what \<^verbatim>\<open>Math.max()\<close> returns when it is given no argument.
  \<open>Num n\<close> is the double whose value is the integer \<open>n\<close>; on such numbers
  \<^verbatim>\<open>===\<close> is equality.
\<close>

datatype jsnum = NegInfinity | Num int

record Resource =
  name :: string
  permissions :: "Permission list"

text \<open>
  \<^verbatim>\<open>type Rule = { id; name; resources }\<close> and
  \<^verbatim>\<open>type Role = { id; name; description; resources }\<close>: a role is a rule with one more
  field. The handlers that both components share are defined once, on every extension of
  \<open>Rule\<close>. The field \<^verbatim>\<open>id\<close> is called \<open>ident\<close>, since \<open>id\<close> is the identity
  function of HOL.
\<close>

record Rule =
  ident :: jsnum
  name :: string
  resources :: "Resource list"

record Role = Rule +
  description :: string

text \<open>
  The component state, with the names of \<^verbatim>\<open>GroupRolesClient\<close>. In
  \<^verbatim>\<open>SecurityRulesClient\<close> the same five cells are called \<^verbatim>\<open>rules\<close>,
  \<^verbatim>\<open>selectedRuleId\<close>, \<^verbatim>\<open>editingRule\<close>, \<^verbatim>\<open>isResourceDropdownOpen\<close> and
  \<^verbatim>\<open>deletingRuleId\<close>. The cell \<^verbatim>\<open>newResourceName\<close> has no setter and keeps its
  initial value, the empty string; it is left out.
\<close>

record 'e State =
  roles :: "'e list"
  selectedRoleId :: jsnum
  editingRole :: 'e
  isResourceDropdownOpen :: bool
  deletingRoleId :: "jsnum option"

datatype error = TypeError

section \<open>The seed data and the catalogues\<close>

definition initialRoles :: "Role list" where
  "initialRoles =
    [\<lparr>ident = Num 1, name = ''Member'', resources =
        [\<lparr>Resource.name = ''Group Members'', permissions = [Read, Add, Delete]\<rparr>,
         \<lparr>Resource.name = ''Forum Categories'', permissions = [Read, Add, Modify, Delete, Post]\<rparr>,
         \<lparr>Resource.name = ''Category1'', permissions = [Edit, Delete, Post]\<rparr>,
         \<lparr>Resource.name = ''Category2'', permissions = [Post]\<rparr>],
       description = ''Basic access for regular users''\<rparr>,
     \<lparr>ident = Num 2, name = ''Admin'', resources =
        [\<lparr>Resource.name = ''Group Members'', permissions = [Read, Add, Delete]\<rparr>,
         \<lparr>Resource.name = ''Forum Categories'', permissions = [Read, Add, Modify, Delete, Post]\<rparr>],
       description = ''Full access for administrators''\<rparr>,
     \<lparr>ident = Num 3, name = ''Moderator'', resources =
        [\<lparr>Resource.name = ''Forum Categories'', permissions = [Read, Edit, Modify, Delete, Post]\<rparr>,
         \<lparr>Resource.name = ''Category1'', permissions = [Read, Edit, Delete, Post]\<rparr>,
         \<lparr>Resource.name = ''Category2'', permissions = [Read, Edit, Post]\<rparr>],
       description = ''Moderation capabilities for forum content''\<rparr>]"

definition initialRules :: "Rule list" where
  "initialRules =
    [\<lparr>ident = Num 1, name = ''Default Rule'', resources =
        [\<lparr>Resource.name = ''Group Members'', permissions = [Read, Add, Delete]\<rparr>,
         \<lparr>Resource.name = ''Forum Categories'', permissions = [Read, Add, Modify, Delete, Post]\<rparr>,
         \<lparr>Resource.name = ''Category1'', permissions = [Edit, Delete, Post]\<rparr>,
         \<lparr>Resource.name = ''Category2'', permissions = [Post]\<rparr>]\<rparr>,
     \<lparr>ident = Num 2, name = ''Admin Rule'', resources =
        [\<lparr>Resource.name = ''Group Members'', permissions = [Read, Add, Delete]\<rparr>,
         \<lparr>Resource.name = ''Forum Categories'', permissions = [Read, Add, Modify, Delete, Post]\<rparr>]\<rparr>]"

definition allPermissions :: "Permission list" where
  "allPermissions = [Read, Add, Edit, Modify, Delete, Post]"

definition allResources :: "string list" where
  "allResources = [''Group Members'', ''Forum Categories'', ''Category1'', ''Category2'',
     ''User Profiles'', ''System Settings'', ''Audit Logs'']"

text \<open>
  The \<^verbatim>\<open>useState\<close> initialisers of \<^verbatim>\<open>GroupRolesClient\<close>:
  \<^verbatim>\<open>roles = initialRoles\<close>, \<^verbatim>\<open>selectedRoleId = 1\<close>,
  \<^verbatim>\<open>editingRole = initialRoles[0]\<close>, dropdown closed, nothing pending. The array
  literal has three elements, so \<^verbatim>\<open>initialRoles[0]\<close> is its head.
\<close>

definition initialRolesState :: "Role State" where
  "initialRolesState =
     \<lparr>roles = initialRoles, selectedRoleId = Num 1, editingRole = hd initialRoles,
      isResourceDropdownOpen = False, deletingRoleId = None\<rparr>"

definition initialRulesState :: "Rule State" where
  "initialRulesState =
     \<lparr>roles = initialRules, selectedRoleId = Num 1, editingRole = hd initialRules,
      isResourceDropdownOpen = False, deletingRoleId = None\<rparr>"

section \<open>JavaScript primitives used by the handlers\<close>

text \<open>\<^verbatim>\<open>Math.max(...xs)\<close>: the largest argument, \<^verbatim>\<open>-Infinity\<close> without arguments.\<close>

fun js_max :: "jsnum \<Rightarrow> jsnum \<Rightarrow> jsnum" where
  "js_max NegInfinity y = y"
| "js_max x NegInfinity = x"
| "js_max (Num a) (Num b) = Num (max a b)"

definition Math_max :: "jsnum list \<Rightarrow> jsnum" where
  "Math_max xs = foldl js_max NegInfinity xs"

text \<open>
  \<^verbatim>\<open>x + 1\<close> on doubles. \<^verbatim>\<open>-Infinity + 1\<close> is \<^verbatim>\<open>-Infinity\<close>. For an integer
  \<open>n\<close> from \<open>-2^53\<close> up to \<open>2^53 - 1\<close> the sum \<open>n + 1\<close> is a double and the
  addition is exact. Beyond that the sum is rounded to the nearest double, ties to the
  even significand: where neighbouring doubles are \<open>2\<close> apart (magnitudes up to
  \<open>2^54\<close>) the sum lies half way between \<open>n\<close> and a neighbour, and the result is
  \<open>n\<close> when \<open>n div 2\<close> is even and \<open>n + 2\<close> otherwise; where they are \<open>4\<close> or
  more apart the result is \<open>n\<close>. So \<^verbatim>\<open>2^53 + 1\<close> is \<^verbatim>\<open>2^53\<close>.
\<close>

fun js_add1 :: "jsnum \<Rightarrow> jsnum" where
  "js_add1 NegInfinity = NegInfinity"
| "js_add1 (Num n) =
     (if - (2 ^ 53) \<le> n \<and> n < 2 ^ 53 then Num (n + 1)
      else if - (2 ^ 54) \<le> n \<and> n < 2 ^ 54 then (if even (n div 2) then Num n else Num (n + 2))
      else Num n)"

text \<open>
  The conversion of a number to a string in a template literal: decimal digits with a
  leading minus sign for an integer (below \<open>10^21\<close> in magnitude), and
  \<^verbatim>\<open>-Infinity\<close>.
\<close>

fun digits :: "nat \<Rightarrow> string" where
  "digits n = (if n < 10 then [''0123456789'' ! n]
               else digits (n div 10) @ [''0123456789'' ! (n mod 10)])"

declare digits.simps [simp del]

fun js_toString :: "jsnum \<Rightarrow> string" where
  "js_toString NegInfinity = ''-Infinity''"
| "js_toString (Num n) = (if n < 0 then ''-'' @ digits (nat (- n)) else digits (nat n))"

text \<open>
  \<^verbatim>\<open>xs.splice(start, 1)\<close> on a copy \<^verbatim>\<open>xs\<close>: a negative \<^verbatim>\<open>start\<close> counts from
  the end and is clamped at \<open>0\<close>, a \<^verbatim>\<open>start\<close> beyond the end is clamped at the length,
  and at most one element is removed from that position.
\<close>

definition splice1 :: "int \<Rightarrow> 'a list \<Rightarrow> 'a list" where
  "splice1 start xs =
     (let len = int (length xs);
          actualStart = (if start < 0 then max (len + start) 0 else min start len)
      in take (nat actualStart) xs @ drop (nat actualStart + 1) xs)"

section \<open>The handlers\<close>

text \<open>
  \<^verbatim>\<open>handleSelectRole\<close> (and \<^verbatim>\<open>handleSelectRule\<close>): the selection is set first;
  the editing copy is replaced only when \<^verbatim>\<open>find\<close> returns an entity.
\<close>

definition handleSelectRole :: "jsnum \<Rightarrow> ('a Rule_scheme) State \<Rightarrow> ('a Rule_scheme) State" where
  "handleSelectRole roleId s =
     (let s1 = s\<lparr>selectedRoleId := roleId\<rparr>
      in case find (\<lambda>r. ident r = roleId) (roles s) of
           Some role \<Rightarrow> s1\<lparr>editingRole := role\<rparr>
         | None \<Rightarrow> s1)"

definition handleRoleNameChange :: "string \<Rightarrow> ('a Rule_scheme) State \<Rightarrow> ('a Rule_scheme) State" where
  "handleRoleNameChange v s = s\<lparr>editingRole := (editingRole s)\<lparr>name := v\<rparr>\<rparr>"

definition handleRoleDescriptionChange :: "string \<Rightarrow> Role State \<Rightarrow> Role State" where
  "handleRoleDescriptionChange v s = s\<lparr>editingRole := (editingRole s)\<lparr>description := v\<rparr>\<rparr>"

text \<open>
  \<^verbatim>\<open>handlePermissionChange\<close>. Reading \<^verbatim>\<open>updatedResources[resourceIndex].permissions\<close>
  at an index outside the array throws a \<^verbatim>\<open>TypeError\<close> before any setter is called.
\<close>

definition handlePermissionChange ::
  "int \<Rightarrow> Permission \<Rightarrow> ('a Rule_scheme) State \<Rightarrow> error + ('a Rule_scheme) State" where
  "handlePermissionChange resourceIndex permission s =
     (let updatedResources = resources (editingRole s)
      in if 0 \<le> resourceIndex \<and> resourceIndex < int (length updatedResources) then
           let i = nat resourceIndex;
               currentPermissions = permissions (updatedResources ! i);
               updatedResources' =
                 (if permission \<in> set currentPermissions
                  then updatedResources[i := (updatedResources ! i)
                         \<lparr>permissions := filter (\<lambda>p. p \<noteq> permission) currentPermissions\<rparr>]
                  else updatedResources[i := (updatedResources ! i)
                         \<lparr>permissions := currentPermissions @ [permission]\<rparr>])
           in Inr (s\<lparr>editingRole := (editingRole s)\<lparr>resources := updatedResources'\<rparr>\<rparr>)
         else Inl TypeError)"

text \<open>The outside-click effect and the dropdown button.\<close>

definition handleClickOutside :: "'e State \<Rightarrow> 'e State" where
  "handleClickOutside s =
     (if isResourceDropdownOpen s then s\<lparr>isResourceDropdownOpen := False\<rparr> else s)"

definition toggleResourceDropdown :: "'e State \<Rightarrow> 'e State" where
  "toggleResourceDropdown s = s\<lparr>isResourceDropdownOpen := \<not> isResourceDropdownOpen s\<rparr>"

definition handleSaveChanges :: "('a Rule_scheme) State \<Rightarrow> ('a Rule_scheme) State" where
  "handleSaveChanges s =
     s\<lparr>roles := map (\<lambda>role. if ident role = ident (editingRole s) then editingRole s else role)
                     (roles s)\<rparr>"

definition handleAddRole :: "Role State \<Rightarrow> Role State" where
  "handleAddRole s =
     (let newId = js_add1 (Math_max (map ident (roles s)));
          newRole = \<lparr>ident = newId, name = ''New '' @ js_toString newId, resources = [],
                     description = ''''\<rparr>
      in s\<lparr>roles := roles s @ [newRole], selectedRoleId := newId, editingRole := newRole\<rparr>)"

definition handleAddRule :: "Rule State \<Rightarrow> Rule State" where
  "handleAddRule s =
     (let newId = js_add1 (Math_max (map ident (roles s)));
          newRule = \<lparr>ident = newId, name = ''New Rule '' @ js_toString newId, resources = []\<rparr>
      in s\<lparr>roles := roles s @ [newRule], selectedRoleId := newId, editingRole := newRule\<rparr>)"

definition handleDeleteRole :: "jsnum \<Rightarrow> 'e State \<Rightarrow> 'e State" where
  "handleDeleteRole roleId s = s\<lparr>deletingRoleId := Some roleId\<rparr>"

text \<open>
  \<^verbatim>\<open>confirmDeleteRole\<close> (and \<^verbatim>\<open>confirmDeleteRule\<close>). With nothing pending it returns
  at once. Otherwise the entities with the pending identifier are filtered out; when the
  selection was the pending identifier, it moves to the first remaining entity or to
  \<open>0\<close>, and \<^verbatim>\<open>setEditingRole\<close> is called only when an entity remains
  (\<^verbatim>\<open>if (newEditingRole)\<close>).
\<close>

definition confirmDeleteRole :: "('a Rule_scheme) State \<Rightarrow> ('a Rule_scheme) State" where
  "confirmDeleteRole s =
     (case deletingRoleId s of
        None \<Rightarrow> s
      | Some d \<Rightarrow>
          let updatedRoles = filter (\<lambda>role. ident role \<noteq> d) (roles s);
              s1 = s\<lparr>roles := updatedRoles\<rparr>;
              s2 = (if selectedRoleId s = d then
                      let newSelectedId = (case updatedRoles of [] \<Rightarrow> Num 0 | r # _ \<Rightarrow> ident r);
                          s1' = s1\<lparr>selectedRoleId := newSelectedId\<rparr>
                      in (case updatedRoles of [] \<Rightarrow> s1' | r # _ \<Rightarrow> s1'\<lparr>editingRole := r\<rparr>)
                    else s1)
          in s2\<lparr>deletingRoleId := None\<rparr>)"

definition cancelDeleteRole :: "'e State \<Rightarrow> 'e State" where
  "cancelDeleteRole s = s\<lparr>deletingRoleId := None\<rparr>"

definition handleRemoveResource :: "int \<Rightarrow> ('a Rule_scheme) State \<Rightarrow> ('a Rule_scheme) State" where
  "handleRemoveResource index s =
     s\<lparr>editingRole := (editingRole s)\<lparr>resources := splice1 index (resources (editingRole s))\<rparr>\<rparr>"

text \<open>
  The resource dropdown. It lists the catalogue entries that the editing copy does not
  hold yet; the \<^verbatim>\<open>onClick\<close> handler of an entry closes the dropdown and appends the
  resource with no permission. The handler is an anonymous arrow function in the source;
  it is called \<open>attachResource\<close> here.
\<close>

definition availableResources :: "('a Rule_scheme) State \<Rightarrow> string list" where
  "availableResources s =
     filter (\<lambda>resource. \<not> list_ex (\<lambda>r. Resource.name r = resource) (resources (editingRole s)))
       allResources"

definition attachResource :: "string \<Rightarrow> ('a Rule_scheme) State \<Rightarrow> ('a Rule_scheme) State" where
  "attachResource resource s =
     s\<lparr>isResourceDropdownOpen := False,
       editingRole := (editingRole s)\<lparr>resources :=
         resources (editingRole s) @ [\<lparr>Resource.name = resource, permissions = []\<rparr>]\<rparr>\<rparr>"

section \<open>The handlers of \<^verbatim>\<open>SecurityRulesClient\<close>\<close>

text \<open>
  \<^verbatim>\<open>SecurityRulesClient\<close> repeats the handlers with \<^verbatim>\<open>rule\<close> in place of
  \<^verbatim>\<open>role\<close>. \<^verbatim>\<open>handlePermissionChange\<close>, \<^verbatim>\<open>handleSaveChanges\<close>,
  \<^verbatim>\<open>handleRemoveResource\<close>, the dropdown and its \<^verbatim>\<open>onClick\<close> keep their names and
  are the definitions above at the type \<open>Rule State\<close>; \<^verbatim>\<open>handleAddRule\<close> is defined
  above, next to \<^verbatim>\<open>handleAddRole\<close>. The renamed ones are written out here from their
  own source text, the state cells read under their \<^verbatim>\<open>GroupRolesClient\<close> names.
\<close>

definition handleSelectRule :: "jsnum \<Rightarrow> Rule State \<Rightarrow> Rule State" where
  "handleSelectRule ruleId s =
     (let s1 = s\<lparr>selectedRoleId := ruleId\<rparr>
      in case find (\<lambda>r. ident r = ruleId) (roles s) of
           Some rule \<Rightarrow> s1\<lparr>editingRole := rule\<rparr>
         | None \<Rightarrow> s1)"

definition handleRuleNameChange :: "string \<Rightarrow> Rule State \<Rightarrow> Rule State" where
  "handleRuleNameChange v s = s\<lparr>editingRole := (editingRole s)\<lparr>name := v\<rparr>\<rparr>"

definition handleDeleteRule :: "jsnum \<Rightarrow> Rule State \<Rightarrow> Rule State" where
  "handleDeleteRule ruleId s = s\<lparr>deletingRoleId := Some ruleId\<rparr>"

definition confirmDeleteRule :: "Rule State \<Rightarrow> Rule State" where
  "confirmDeleteRule s =
     (case deletingRoleId s of
        None \<Rightarrow> s
      | Some d \<Rightarrow>
          let updatedRules = filter (\<lambda>rule. ident rule \<noteq> d) (roles s);
              s1 = s\<lparr>roles := updatedRules\<rparr>;
              s2 = (if selectedRoleId s = d then
                      let newSelectedId = (case updatedRules of [] \<Rightarrow> Num 0 | r # _ \<Rightarrow> ident r);
                          s1' = s1\<lparr>selectedRoleId := newSelectedId\<rparr>
                      in (case updatedRules of [] \<Rightarrow> s1' | r # _ \<Rightarrow> s1'\<lparr>editingRole := r\<rparr>)
                    else s1)
          in s2\<lparr>deletingRoleId := None\<rparr>)"

definition cancelDeleteRule :: "Rule State \<Rightarrow> Rule State" where
  "cancelDeleteRule s = s\<lparr>deletingRoleId := None\<rparr>"

section \<open>The invariants of the data model\<close>

text \<open>
  An entity is well formed when no two of its resources share a name and no permission
  list holds a permission twice. A state is well formed when every entity of the list
  and the editing copy are.
\<close>

definition entity_ok :: "'a Rule_scheme \<Rightarrow> bool" where
  "entity_ok e \<longleftrightarrow>
     distinct (map Resource.name (resources e)) \<and>
     list_all (\<lambda>r. distinct (permissions r)) (resources e)"

definition state_ok :: "('a Rule_scheme) State \<Rightarrow> bool" where
  "state_ok s \<longleftrightarrow> list_all entity_ok (roles s) \<and> entity_ok (editingRole s)"

text \<open>
  One user action in \<^verbatim>\<open>GroupRolesClient\<close>. Every handler may run with any argument,
  except that a permission is toggled only at an index of the resource table (otherwise
  the handler throws and the state stays) and that a resource is attached only when the
  editing copy does not hold its name, which is what the dropdown's filter offers.
\<close>

inductive step :: "Role State \<Rightarrow> Role State \<Rightarrow> bool" where
  s_select: "step s (handleSelectRole roleId s)"
| s_name: "step s (handleRoleNameChange v s)"
| s_description: "step s (handleRoleDescriptionChange v s)"
| s_permission: "handlePermissionChange i p s = Inr s' \<Longrightarrow> step s s'"
| s_click_outside: "step s (handleClickOutside s)"
| s_dropdown: "step s (toggleResourceDropdown s)"
| s_save: "step s (handleSaveChanges s)"
| s_add: "step s (handleAddRole s)"
| s_delete: "step s (handleDeleteRole roleId s)"
| s_confirm: "step s (confirmDeleteRole s)"
| s_cancel: "step s (cancelDeleteRole s)"
| s_remove: "step s (handleRemoveResource index s)"
| s_attach: "resource \<notin> Resource.name ` set (resources (editingRole s)) \<Longrightarrow>
     step s (attachResource resource s)"

text \<open>
  The states reached from the seed data by such actions. The relation follows the state
  setters only. The render of a state whose list is empty evaluates
  \<^verbatim>\<open>selectedRole.name\<close> on \<^verbatim>\<open>undefined\<close> and throws, so in the browser no handler
  runs once the last entity is gone; the relation goes on from such states all the same,
  which makes it larger and a statement about all its states stronger.
\<close>

inductive reachable :: "Role State \<Rightarrow> bool" where
  r_init: "reachable initialRolesState"
| r_step: "reachable s \<Longrightarrow> step s s' \<Longrightarrow> reachable s'"

text \<open>The same for \<^verbatim>\<open>SecurityRulesClient\<close>, which has no description field.\<close>

inductive stepRules :: "Rule State \<Rightarrow> Rule State \<Rightarrow> bool" where
  u_select: "stepRules s (handleSelectRule ruleId s)"
| u_name: "stepRules s (handleRuleNameChange v s)"
| u_permission: "handlePermissionChange i p s = Inr s' \<Longrightarrow> stepRules s s'"
| u_click_outside: "stepRules s (handleClickOutside s)"
| u_dropdown: "stepRules s (toggleResourceDropdown s)"
| u_save: "stepRules s (handleSaveChanges s)"
| u_add: "stepRules s (handleAddRule s)"
| u_delete: "stepRules s (handleDeleteRule ruleId s)"
| u_confirm: "stepRules s (confirmDeleteRule s)"
| u_cancel: "stepRules s (cancelDeleteRule s)"
| u_remove: "stepRules s (handleRemoveResource index s)"
| u_attach: "resource \<notin> Resource.name ` set (resources (editingRole s)) \<Longrightarrow>
     stepRules s (attachResource resource s)"

inductive reachableRules :: "Rule State \<Rightarrow> bool" where
  ur_init: "reachableRules initialRulesState"
| ur_step: "reachableRules s \<Longrightarrow> stepRules s s' \<Longrightarrow> reachableRules s'"

section \<open>Comparing identifiers\<close>

text \<open>The order of numbers, with \<^verbatim>\<open>-Infinity\<close> below every integer.\<close>

fun js_le :: "jsnum \<Rightarrow> jsnum \<Rightarrow> bool" where
  "js_le NegInfinity y = True"
| "js_le (Num a) NegInfinity = False"
| "js_le (Num a) (Num b) = (a \<le> b)"

definition js_less :: "jsnum \<Rightarrow> jsnum \<Rightarrow> bool" where
  "js_less x y \<longleftrightarrow> js_le x y \<and> \<not> js_le y x"

text \<open>
  \<^verbatim>\<open>Number.isSafeInteger\<close>: the integers of magnitude at most \<open>2^53 - 1\<close>, on which
  integer arithmetic of doubles is exact.
\<close>

fun isSafeInteger :: "jsnum \<Rightarrow> bool" where
  "isSafeInteger NegInfinity = False"
| "isSafeInteger (Num n) = (- (2 ^ 53) < n \<and> n < 2 ^ 53)"

section \<open>Deleting every entity\<close>

text \<open>
  The states in which the list of entities has run empty. In \<^verbatim>\<open>GroupRolesClient\<close>,
  starting from the initial state, the deletions of the roles 2 and 3 are requested and
  confirmed and the deletion of role 1, the selected one, is requested:
  \<open>lastRoleState\<close>. Confirming once more gives \<open>emptiedRolesState\<close>. In
  \<^verbatim>\<open>SecurityRulesClient\<close> the rules 2 and 1 are deleted.
\<close>

definition lastRoleState :: "Role State" where
  "lastRoleState =
     handleDeleteRole (Num 1)
       (confirmDeleteRole (handleDeleteRole (Num 3)
         (confirmDeleteRole (handleDeleteRole (Num 2) initialRolesState))))"

definition emptiedRolesState :: "Role State" where
  "emptiedRolesState = confirmDeleteRole lastRoleState"

definition emptiedRulesState :: "Rule State" where
  "emptiedRulesState =
     confirmDeleteRule (handleDeleteRule (Num 1)
       (confirmDeleteRule (handleDeleteRule (Num 2) initialRulesState)))"

section \<open>The two components agree\<close>

lemma rules_handlers_are_roles_handlers:
  "handleSelectRule = handleSelectRole"
  "handleRuleNameChange = handleRoleNameChange"
  "handleDeleteRule = handleDeleteRole"
  "confirmDeleteRule = confirmDeleteRole"
  "cancelDeleteRule = cancelDeleteRole"
  by (auto simp: fun_eq_iff handleSelectRule_def handleSelectRole_def handleRuleNameChange_def
      handleRoleNameChange_def handleDeleteRule_def handleDeleteRole_def confirmDeleteRule_def
      confirmDeleteRole_def cancelDeleteRule_def cancelDeleteRole_def)

text \<open>
  The theorems below are stated for the handlers of \<^verbatim>\<open>GroupRolesClient\<close> on every
  extension of \<open>Rule\<close>; by the equations above they hold for the handlers of
  \<^verbatim>\<open>SecurityRulesClient\<close> as well.
\<close>

section \<open>The emptied states\<close>

lemma lastRoleState_eq:
  "lastRoleState = initialRolesState\<lparr>roles := [hd initialRoles], deletingRoleId := Some (Num 1)\<rparr>"
  by (simp add: lastRoleState_def confirmDeleteRole_def handleDeleteRole_def
      initialRolesState_def initialRoles_def)

lemma emptiedRolesState_eq:
  "emptiedRolesState = initialRolesState\<lparr>roles := [], selectedRoleId := Num 0\<rparr>"
  by (simp add: emptiedRolesState_def lastRoleState_eq confirmDeleteRole_def)
     (simp add: initialRolesState_def initialRoles_def)

lemma emptiedRulesState_eq:
  "emptiedRulesState = initialRulesState\<lparr>roles := [], selectedRoleId := Num 0\<rparr>"
  by (simp add: emptiedRulesState_def confirmDeleteRule_def handleDeleteRule_def
      initialRulesState_def initialRules_def)

section \<open>Confirming and cancelling a deletion\<close>

text \<open>
  C1, as the code has it. When the pending identifier \<open>d\<close> is the selection, confirming
  removes the entities carrying \<open>d\<close> and clears the latch. If an entity remains, the
  selection becomes the identifier of the first one and the editing copy becomes that
  entity. If none remains, the selection becomes \<open>0\<close> and the editing copy stays what
  it was: \<^verbatim>\<open>setEditingRole\<close> is not called, the cell has the type \<^verbatim>\<open>Role\<close> and
  cannot hold \<^verbatim>\<open>null\<close>.
\<close>

theorem confirmDelete_selected:
  assumes "deletingRoleId s = Some d" and "selectedRoleId s = d"
  shows "roles (confirmDeleteRole s) = filter (\<lambda>role. ident role \<noteq> d) (roles s) \<and>
         deletingRoleId (confirmDeleteRole s) = None \<and>
         (case roles (confirmDeleteRole s) of
            [] \<Rightarrow> selectedRoleId (confirmDeleteRole s) = Num 0 \<and>
                  editingRole (confirmDeleteRole s) = editingRole s
          | e # _ \<Rightarrow> selectedRoleId (confirmDeleteRole s) = ident e \<and>
                  editingRole (confirmDeleteRole s) = e)"
  using assms by (simp add: confirmDeleteRole_def Let_def split: list.splits)

text \<open>
  The scenario of the specification: roles 1, 2, 3 with role 1 selected; after
  \<^verbatim>\<open>handleDeleteRole(1)\<close> and \<^verbatim>\<open>confirmDeleteRole()\<close> the roles are 2 and 3, and
  role 2 is selected and edited.
\<close>

theorem confirmDelete_selected_witness:
  "deletingRoleId (handleDeleteRole (Num 1) initialRolesState) = Some (Num 1) \<and>
   selectedRoleId (handleDeleteRole (Num 1) initialRolesState) = Num 1 \<and>
   map ident (roles (confirmDeleteRole (handleDeleteRole (Num 1) initialRolesState)))
     = [Num 2, Num 3] \<and>
   selectedRoleId (confirmDeleteRole (handleDeleteRole (Num 1) initialRolesState)) = Num 2 \<and>
   editingRole (confirmDeleteRole (handleDeleteRole (Num 1) initialRolesState)) = initialRoles ! 1 \<and>
   deletingRoleId (confirmDeleteRole (handleDeleteRole (Num 1) initialRolesState)) = None"
proof -
  let ?s = "handleDeleteRole (Num 1) initialRolesState"
  have h1: "deletingRoleId ?s = Some (Num 1)"
    by (simp add: handleDeleteRole_def)
  have h2: "selectedRoleId ?s = Num 1"
    by (simp add: handleDeleteRole_def initialRolesState_def)
  have r: "roles ?s = initialRoles"
    by (simp add: handleDeleteRole_def initialRolesState_def)
  note c = confirmDelete_selected [OF h1 h2]
  have a: "roles (confirmDeleteRole ?s) = [initialRoles ! 1, initialRoles ! 2]"
    using c unfolding r by (simp add: initialRoles_def)
  have b: "selectedRoleId (confirmDeleteRole ?s) = ident (initialRoles ! 1) \<and>
           editingRole (confirmDeleteRole ?s) = initialRoles ! 1"
    using c unfolding a by simp
  have "deletingRoleId (confirmDeleteRole ?s) = None"
    using c by simp
  then show ?thesis
    using h1 h2 b unfolding a by (simp add: initialRoles_def)
qed

text \<open>
  Deleting the last role. In \<open>lastRoleState\<close> role 1 is pending and selected.
  Confirming empties the list and sets the selection to \<open>0\<close>, and the editing copy is
  still the deleted role \<^verbatim>\<open>Member\<close> with its four resources: it is not cleared.
\<close>

theorem confirmDelete_last_entity_keeps_draft:
  "deletingRoleId lastRoleState = Some (Num 1) \<and>
   selectedRoleId lastRoleState = Num 1 \<and>
   roles (confirmDeleteRole lastRoleState) = [] \<and>
   selectedRoleId (confirmDeleteRole lastRoleState) = Num 0 \<and>
   editingRole (confirmDeleteRole lastRoleState) = editingRole lastRoleState \<and>
   name (editingRole (confirmDeleteRole lastRoleState)) = ''Member'' \<and>
   length (resources (editingRole (confirmDeleteRole lastRoleState))) = 4"
  by (simp add: lastRoleState_eq confirmDeleteRole_def)
     (simp add: initialRolesState_def initialRoles_def)

text \<open>
  C7. With nothing pending, confirming a deletion changes neither the list of entities
  nor the selection nor the editing copy, and nothing is pending afterwards. Cancelling a
  deletion, in any state \<open>t\<close>, keeps the list of entities and leaves nothing pending.
\<close>

theorem confirmDelete_nothing_pending:
  assumes "deletingRoleId s = None"
  shows "roles (confirmDeleteRole s) = roles s \<and>
         selectedRoleId (confirmDeleteRole s) = selectedRoleId s \<and>
         editingRole (confirmDeleteRole s) = editingRole s \<and>
         deletingRoleId (confirmDeleteRole s) = None \<and>
         roles (cancelDeleteRole t) = roles t \<and>
         deletingRoleId (cancelDeleteRole t) = None"
  using assms by (simp add: confirmDeleteRole_def cancelDeleteRole_def)

theorem confirmDelete_nothing_pending_witness:
  "deletingRoleId initialRolesState = None \<and>
   roles (confirmDeleteRole initialRolesState) = initialRoles \<and>
   selectedRoleId (confirmDeleteRole initialRolesState) = Num 1 \<and>
   editingRole (confirmDeleteRole initialRolesState) = hd initialRoles \<and>
   deletingRoleId (confirmDeleteRole initialRolesState) = None \<and>
   roles (cancelDeleteRole (handleDeleteRole (Num 2) initialRolesState)) = initialRoles \<and>
   deletingRoleId (cancelDeleteRole (handleDeleteRole (Num 2) initialRolesState)) = None"
proof -
  have h: "deletingRoleId initialRolesState = None"
    by (simp add: initialRolesState_def)
  from confirmDelete_nothing_pending [OF h, of "handleDeleteRole (Num 2) initialRolesState"]
  show ?thesis
    by (simp add: initialRolesState_def handleDeleteRole_def)
qed

section \<open>Adding an entity\<close>

lemma js_le_refl: "js_le x x"
  by (cases x) simp_all

lemma js_le_trans: "js_le x y \<Longrightarrow> js_le y z \<Longrightarrow> js_le x z"
  by (cases x; cases y; cases z) simp_all

lemma js_le_max: "js_le x (js_max x y)" "js_le y (js_max x y)"
  by (cases x; cases y; simp)+

lemma js_max_cases: "js_max x y = x \<or> js_max x y = y"
  by (cases x; cases y) (auto simp: max_def)

lemma foldl_js_max_upper:
  "js_le a (foldl js_max a xs) \<and> (\<forall>x\<in>set xs. js_le x (foldl js_max a xs))"
proof (induction xs arbitrary: a)
  case Nil
  show ?case by (simp add: js_le_refl)
next
  case (Cons y ys)
  from Cons.IH [of "js_max a y"] show ?case
    by (auto intro: js_le_trans js_le_max)
qed

lemma foldl_js_max_member: "foldl js_max a xs \<in> insert a (set xs)"
proof (induction xs arbitrary: a)
  case Nil
  show ?case by simp
next
  case (Cons y ys)
  from Cons.IH [of "js_max a y"] js_max_cases [of a y] show ?case
    by auto
qed

text \<open>
  On a list of safe integers that is not empty, \<^verbatim>\<open>Math.max\<close> returns the largest
  identifier of the list, itself a safe integer.
\<close>

lemma Math_max_safe:
  assumes "xs \<noteq> []" and "\<forall>x\<in>set xs. isSafeInteger x"
  shows "\<exists>m. Math_max xs = Num m \<and> Num m \<in> set xs \<and> - (2 ^ 53) < m \<and> m < 2 ^ 53 \<and>
             (\<forall>x\<in>set xs. js_le x (Num m))"
proof -
  from assms(1) obtain x where x: "x \<in> set xs" by (cases xs) auto
  with assms(2) obtain k where k: "x = Num k" by (cases x) auto
  have upper: "\<forall>y\<in>set xs. js_le y (Math_max xs)"
    using foldl_js_max_upper [of NegInfinity xs] by (simp add: Math_max_def)
  with x k have "Math_max xs \<noteq> NegInfinity"
    by (cases "Math_max xs") auto
  moreover have "Math_max xs \<in> insert NegInfinity (set xs)"
    unfolding Math_max_def by (rule foldl_js_max_member)
  ultimately have mem: "Math_max xs \<in> set xs" by simp
  with assms(2) have safe: "isSafeInteger (Math_max xs)" by simp
  then obtain m where m: "Math_max xs = Num m" by (cases "Math_max xs") auto
  with safe mem upper show ?thesis by auto
qed

lemma js_less_succ: "js_le x (Num m) \<Longrightarrow> js_less x (Num (m + 1))"
  by (cases x) (simp_all add: js_less_def)

text \<open>Where the addition stops being exact: \<^verbatim>\<open>2^53 + 1\<close> is \<^verbatim>\<open>2^53\<close>.\<close>

lemma js_add1_rounds:
  "js_add1 (Num (2 ^ 53 - 1)) = Num (2 ^ 53)"
  "js_add1 (Num (2 ^ 53)) = Num (2 ^ 53)"
  "js_add1 (Num (2 ^ 53 + 2)) = Num (2 ^ 53 + 4)"
  by simp_all

text \<open>
  C2, as the code has it. When the list is not empty and its identifiers are safe
  integers, adding an entity appends one whose identifier is the largest identifier
  \<open>m\<close> of the list plus one, which is greater than every identifier of the list. The
  new entity is named \<^verbatim>\<open>New\<close> followed by the identifier (\<^verbatim>\<open>New Rule\<close> in
  \<^verbatim>\<open>SecurityRulesClient\<close>), has no resources (and an empty description), is selected
  and is the editing copy. Nothing else changes. There is no seed value for the empty
  list in the code.
\<close>

theorem handleAdd_fresh:
  "(roles s \<noteq> [] \<and> (\<forall>q\<in>set (roles s). isSafeInteger (ident q)) \<longrightarrow>
      (\<exists>m. Num m \<in> ident ` set (roles s) \<and>
        (\<forall>q\<in>set (roles s). js_le (ident q) (Num m) \<and> js_less (ident q) (Num (m + 1))) \<and>
        handleAddRole s =
          s\<lparr>roles := roles s @
               [\<lparr>ident = Num (m + 1), name = ''New '' @ js_toString (Num (m + 1)),
                 resources = [], description = ''''\<rparr>],
            selectedRoleId := Num (m + 1),
            editingRole := \<lparr>ident = Num (m + 1), name = ''New '' @ js_toString (Num (m + 1)),
                 resources = [], description = ''''\<rparr>\<rparr>)) \<and>
   (roles t \<noteq> [] \<and> (\<forall>q\<in>set (roles t). isSafeInteger (ident q)) \<longrightarrow>
      (\<exists>m. Num m \<in> ident ` set (roles t) \<and>
        (\<forall>q\<in>set (roles t). js_le (ident q) (Num m) \<and> js_less (ident q) (Num (m + 1))) \<and>
        handleAddRule t =
          t\<lparr>roles := roles t @
               [\<lparr>ident = Num (m + 1), name = ''New Rule '' @ js_toString (Num (m + 1)),
                 resources = []\<rparr>],
            selectedRoleId := Num (m + 1),
            editingRole := \<lparr>ident = Num (m + 1), name = ''New Rule '' @ js_toString (Num (m + 1)),
                 resources = []\<rparr>\<rparr>))"
proof (intro conjI impI)
  assume a: "roles s \<noteq> [] \<and> (\<forall>q\<in>set (roles s). isSafeInteger (ident q))"
  let ?ids = "map ident (roles s)"
  from a have "?ids \<noteq> []" and "\<forall>x\<in>set ?ids. isSafeInteger x" by auto
  then obtain m where m: "Math_max ?ids = Num m" "Num m \<in> set ?ids"
      "- (2 ^ 53) < m" "m < 2 ^ 53" "\<forall>x\<in>set ?ids. js_le x (Num m)"
    using Math_max_safe [of ?ids] by blast
  from m(3,4) have add: "js_add1 (Num m) = Num (m + 1)" by simp
  have "\<forall>q\<in>set (roles s). js_le (ident q) (Num m) \<and> js_less (ident q) (Num (m + 1))"
    using m(5) by (auto intro: js_less_succ)
  moreover have "Num m \<in> ident ` set (roles s)"
    using m(2) by simp
  moreover have "handleAddRole s =
          s\<lparr>roles := roles s @
               [\<lparr>ident = Num (m + 1), name = ''New '' @ js_toString (Num (m + 1)),
                 resources = [], description = ''''\<rparr>],
            selectedRoleId := Num (m + 1),
            editingRole := \<lparr>ident = Num (m + 1), name = ''New '' @ js_toString (Num (m + 1)),
                 resources = [], description = ''''\<rparr>\<rparr>"
    unfolding handleAddRole_def m(1) add by (simp add: Let_def)
  ultimately show "\<exists>m. Num m \<in> ident ` set (roles s) \<and>
        (\<forall>q\<in>set (roles s). js_le (ident q) (Num m) \<and> js_less (ident q) (Num (m + 1))) \<and>
        handleAddRole s =
          s\<lparr>roles := roles s @
               [\<lparr>ident = Num (m + 1), name = ''New '' @ js_toString (Num (m + 1)),
                 resources = [], description = ''''\<rparr>],
            selectedRoleId := Num (m + 1),
            editingRole := \<lparr>ident = Num (m + 1), name = ''New '' @ js_toString (Num (m + 1)),
                 resources = [], description = ''''\<rparr>\<rparr>"
    by blast
next
  assume a: "roles t \<noteq> [] \<and> (\<forall>q\<in>set (roles t). isSafeInteger (ident q))"
  let ?ids = "map ident (roles t)"
  from a have "?ids \<noteq> []" and "\<forall>x\<in>set ?ids. isSafeInteger x" by auto
  then obtain m where m: "Math_max ?ids = Num m" "Num m \<in> set ?ids"
      "- (2 ^ 53) < m" "m < 2 ^ 53" "\<forall>x\<in>set ?ids. js_le x (Num m)"
    using Math_max_safe [of ?ids] by blast
  from m(3,4) have add: "js_add1 (Num m) = Num (m + 1)" by simp
  have "\<forall>q\<in>set (roles t). js_le (ident q) (Num m) \<and> js_less (ident q) (Num (m + 1))"
    using m(5) by (auto intro: js_less_succ)
  moreover have "Num m \<in> ident ` set (roles t)"
    using m(2) by simp
  moreover have "handleAddRule t =
          t\<lparr>roles := roles t @
               [\<lparr>ident = Num (m + 1), name = ''New Rule '' @ js_toString (Num (m + 1)),
                 resources = []\<rparr>],
            selectedRoleId := Num (m + 1),
            editingRole := \<lparr>ident = Num (m + 1), name = ''New Rule '' @ js_toString (Num (m + 1)),
                 resources = []\<rparr>\<rparr>"
    unfolding handleAddRule_def m(1) add by (simp add: Let_def)
  ultimately show "\<exists>m. Num m \<in> ident ` set (roles t) \<and>
        (\<forall>q\<in>set (roles t). js_le (ident q) (Num m) \<and> js_less (ident q) (Num (m + 1))) \<and>
        handleAddRule t =
          t\<lparr>roles := roles t @
               [\<lparr>ident = Num (m + 1), name = ''New Rule '' @ js_toString (Num (m + 1)),
                 resources = []\<rparr>],
            selectedRoleId := Num (m + 1),
            editingRole := \<lparr>ident = Num (m + 1), name = ''New Rule '' @ js_toString (Num (m + 1)),
                 resources = []\<rparr>\<rparr>"
    by blast
qed

text \<open>
  On the seed data: the new role has the identifier 4 and the name \<^verbatim>\<open>New 4\<close>, the new
  rule the identifier 3 and the name \<^verbatim>\<open>New Rule 3\<close>.
\<close>

theorem handleAdd_fresh_witness:
  "roles initialRolesState \<noteq> [] \<and>
   list_all (\<lambda>q. isSafeInteger (ident q)) (roles initialRolesState) \<and>
   map ident (roles (handleAddRole initialRolesState)) = [Num 1, Num 2, Num 3, Num 4] \<and>
   selectedRoleId (handleAddRole initialRolesState) = Num 4 \<and>
   editingRole (handleAddRole initialRolesState) =
     \<lparr>ident = Num 4, name = ''New 4'', resources = [], description = ''''\<rparr> \<and>
   last (roles (handleAddRole initialRolesState)) = editingRole (handleAddRole initialRolesState) \<and>
   roles initialRulesState \<noteq> [] \<and>
   list_all (\<lambda>q. isSafeInteger (ident q)) (roles initialRulesState) \<and>
   map ident (roles (handleAddRule initialRulesState)) = [Num 1, Num 2, Num 3] \<and>
   selectedRoleId (handleAddRule initialRulesState) = Num 3 \<and>
   editingRole (handleAddRule initialRulesState) =
     \<lparr>ident = Num 3, name = ''New Rule 3'', resources = []\<rparr>"
proof -
  have h1: "roles initialRolesState \<noteq> [] \<and>
            (\<forall>q\<in>set (roles initialRolesState). isSafeInteger (ident q))"
    by (simp add: initialRolesState_def initialRoles_def)
  have h2: "roles initialRulesState \<noteq> [] \<and>
            (\<forall>q\<in>set (roles initialRulesState). isSafeInteger (ident q))"
    by (simp add: initialRulesState_def initialRules_def)
  have ids1: "ident ` set (roles initialRolesState) = {Num 1, Num 2, Num 3}"
    by (simp add: initialRolesState_def initialRoles_def)
  have ids2: "ident ` set (roles initialRulesState) = {Num 1, Num 2}"
    by (simp add: initialRulesState_def initialRules_def)
  note f = handleAdd_fresh [of initialRolesState initialRulesState]
  from f h1 obtain m where m: "Num m \<in> ident ` set (roles initialRolesState)"
      "\<forall>q\<in>set (roles initialRolesState). js_le (ident q) (Num m)"
      "handleAddRole initialRolesState =
          initialRolesState\<lparr>roles := roles initialRolesState @
               [\<lparr>ident = Num (m + 1), name = ''New '' @ js_toString (Num (m + 1)),
                 resources = [], description = ''''\<rparr>],
            selectedRoleId := Num (m + 1),
            editingRole := \<lparr>ident = Num (m + 1), name = ''New '' @ js_toString (Num (m + 1)),
                 resources = [], description = ''''\<rparr>\<rparr>"
    by blast
  have "m = 3"
    using m(1,2) unfolding ids1 by (auto simp: initialRolesState_def initialRoles_def)
  with m(3) have role: "handleAddRole initialRolesState =
          initialRolesState\<lparr>roles := roles initialRolesState @
               [\<lparr>ident = Num 4, name = ''New 4'', resources = [], description = ''''\<rparr>],
            selectedRoleId := Num 4,
            editingRole := \<lparr>ident = Num 4, name = ''New 4'', resources = [],
               description = ''''\<rparr>\<rparr>"
    by (simp add: digits.simps)
  from f h2 obtain k where k: "Num k \<in> ident ` set (roles initialRulesState)"
      "\<forall>q\<in>set (roles initialRulesState). js_le (ident q) (Num k)"
      "handleAddRule initialRulesState =
          initialRulesState\<lparr>roles := roles initialRulesState @
               [\<lparr>ident = Num (k + 1), name = ''New Rule '' @ js_toString (Num (k + 1)),
                 resources = []\<rparr>],
            selectedRoleId := Num (k + 1),
            editingRole := \<lparr>ident = Num (k + 1), name = ''New Rule '' @ js_toString (Num (k + 1)),
                 resources = []\<rparr>\<rparr>"
    by blast
  have "k = 2"
    using k(1,2) unfolding ids2 by (auto simp: initialRulesState_def initialRules_def)
  with k(3) have rule: "handleAddRule initialRulesState =
          initialRulesState\<lparr>roles := roles initialRulesState @
               [\<lparr>ident = Num 3, name = ''New Rule 3'', resources = []\<rparr>],
            selectedRoleId := Num 3,
            editingRole := \<lparr>ident = Num 3, name = ''New Rule 3'', resources = []\<rparr>\<rparr>"
    by (simp add: digits.simps)
  have r1: "map ident (roles (handleAddRole initialRolesState)) = [Num 1, Num 2, Num 3, Num 4]"
    unfolding role by (simp add: initialRolesState_def initialRoles_def)
  have r2: "map ident (roles (handleAddRule initialRulesState)) = [Num 1, Num 2, Num 3]"
    unfolding rule by (simp add: initialRulesState_def initialRules_def)
  have r3: "selectedRoleId (handleAddRole initialRolesState) = Num 4 \<and>
        editingRole (handleAddRole initialRolesState) =
          \<lparr>ident = Num 4, name = ''New 4'', resources = [], description = ''''\<rparr> \<and>
        last (roles (handleAddRole initialRolesState)) = editingRole (handleAddRole initialRolesState)"
    unfolding role by simp
  have r4: "selectedRoleId (handleAddRule initialRulesState) = Num 3 \<and>
        editingRole (handleAddRule initialRulesState) =
          \<lparr>ident = Num 3, name = ''New Rule 3'', resources = []\<rparr>"
    unfolding rule by simp
  from h1 h2 r1 r2 r3 r4 show ?thesis by (simp add: list_all_iff)
qed

text \<open>
  The empty list, which the handlers leave behind when the last entity is deleted.
  \<^verbatim>\<open>Math.max()\<close> has no argument and returns \<^verbatim>\<open>-Infinity\<close>, and
  \<^verbatim>\<open>-Infinity + 1\<close> is \<^verbatim>\<open>-Infinity\<close>: the new role has the identifier
  \<^verbatim>\<open>-Infinity\<close> and the name \<^verbatim>\<open>New -Infinity\<close>, not a seed value. Adding once
  more gives a second role with the identifier \<^verbatim>\<open>-Infinity\<close>, which is not greater
  than the one already there. The same holds for the handler of
  \<^verbatim>\<open>SecurityRulesClient\<close>.
\<close>

theorem handleAdd_on_empty_collection:
  "roles emptiedRolesState = [] \<and>
   roles (handleAddRole emptiedRolesState) =
     [\<lparr>ident = NegInfinity, name = ''New -Infinity'', resources = [], description = ''''\<rparr>] \<and>
   selectedRoleId (handleAddRole emptiedRolesState) = NegInfinity \<and>
   map ident (roles (handleAddRole (handleAddRole emptiedRolesState)))
     = [NegInfinity, NegInfinity] \<and>
   \<not> js_less NegInfinity (selectedRoleId (handleAddRole (handleAddRole emptiedRolesState))) \<and>
   roles emptiedRulesState = [] \<and>
   roles (handleAddRule emptiedRulesState) =
     [\<lparr>ident = NegInfinity, name = ''New Rule -Infinity'', resources = []\<rparr>] \<and>
   map ident (roles (handleAddRule (handleAddRule emptiedRulesState)))
     = [NegInfinity, NegInfinity]"
  by (simp add: emptiedRolesState_eq emptiedRulesState_eq handleAddRole_def handleAddRule_def
      Math_max_def Let_def js_less_def)

section \<open>Toggling a permission\<close>

lemma toggle_in_range:
  assumes "0 \<le> i" and "i < int (length (resources (editingRole s)))"
  shows "handlePermissionChange i p s =
     Inr (s\<lparr>editingRole := (editingRole s)\<lparr>resources :=
            (resources (editingRole s))[nat i :=
               (resources (editingRole s) ! nat i)\<lparr>permissions :=
                 (if p \<in> set (permissions (resources (editingRole s) ! nat i))
                  then filter (\<lambda>q. q \<noteq> p) (permissions (resources (editingRole s) ! nat i))
                  else permissions (resources (editingRole s) ! nat i) @ [p])\<rparr>]\<rparr>\<rparr>)"
  using assms by (simp add: handlePermissionChange_def Let_def)

text \<open>
  C3. At an index of the resource table, toggling the same permission twice succeeds both
  times, and the state afterwards is the state before with one change at most: the
  permission list of the resource at that index is replaced by a list \<open>ps\<close> with the
  same set of permissions. When the permission was absent, \<open>ps\<close> is the old list itself;
  when it was present, it has moved to the end of the list.
\<close>

theorem toggle_twice:
  assumes "0 \<le> i" and "i < int (length (resources (editingRole s)))"
  shows "\<exists>s1 s2 ps.
     handlePermissionChange i p s = Inr s1 \<and>
     handlePermissionChange i p s1 = Inr s2 \<and>
     set ps = set (permissions (resources (editingRole s) ! nat i)) \<and>
     (p \<notin> set (permissions (resources (editingRole s) ! nat i)) \<longrightarrow>
        ps = permissions (resources (editingRole s) ! nat i)) \<and>
     s2 = s\<lparr>editingRole := (editingRole s)\<lparr>resources :=
            (resources (editingRole s))[nat i :=
               (resources (editingRole s) ! nat i)\<lparr>permissions := ps\<rparr>]\<rparr>\<rparr>"
proof -
  let ?rs = "resources (editingRole s)"
  let ?cur = "permissions (?rs ! nat i)"
  let ?mid = "if p \<in> set ?cur then filter (\<lambda>q. q \<noteq> p) ?cur else ?cur @ [p]"
  let ?s1 = "s\<lparr>editingRole := (editingRole s)\<lparr>resources :=
               ?rs[nat i := (?rs ! nat i)\<lparr>permissions := ?mid\<rparr>]\<rparr>\<rparr>"
  let ?ps = "if p \<in> set ?cur then filter (\<lambda>q. q \<noteq> p) ?cur @ [p] else ?cur"
  let ?s2 = "s\<lparr>editingRole := (editingRole s)\<lparr>resources :=
               ?rs[nat i := (?rs ! nat i)\<lparr>permissions := ?ps\<rparr>]\<rparr>\<rparr>"
  have n: "nat i < length ?rs" using assms by simp
  have first: "handlePermissionChange i p s = Inr ?s1"
    using assms by (rule toggle_in_range)
  have len1: "i < int (length (resources (editingRole ?s1)))"
    using assms by simp
  have keep: "p \<notin> set ?cur \<Longrightarrow> filter (\<lambda>q. q \<noteq> p) ?cur = ?cur"
    by (auto simp: filter_id_conv)
  have second: "handlePermissionChange i p ?s1 = Inr ?s2"
  proof (cases "p \<in> set ?cur")
    case True
    then show ?thesis
      unfolding toggle_in_range [OF assms(1) len1] using n by simp
  next
    case False
    then show ?thesis
      unfolding toggle_in_range [OF assms(1) len1] using n keep by simp
  qed
  have same: "set ?ps = set ?cur" by auto
  have exact: "p \<notin> set ?cur \<longrightarrow> ?ps = ?cur" by simp
  from first second same exact show ?thesis by blast
qed

theorem toggle_twice_witness:
  "(0::int) \<le> 0 \<and> (0::int) < int (length (resources (editingRole initialRolesState))) \<and>
   (\<exists>s1 s2. handlePermissionChange 0 Read initialRolesState = Inr s1 \<and>
      handlePermissionChange 0 Read s1 = Inr s2 \<and>
      set (permissions (resources (editingRole s2) ! 0)) = {Read, Add, Delete} \<and>
      Resource.name (resources (editingRole s2) ! 0) = ''Group Members'' \<and>
      tl (resources (editingRole s2)) = tl (resources (editingRole initialRolesState)))"
proof -
  have h1: "(0::int) \<le> 0" by simp
  have h2: "(0::int) < int (length (resources (editingRole initialRolesState)))"
    by (simp add: initialRolesState_def initialRoles_def)
  from toggle_twice [OF h1 h2, of Read] obtain s1 s2 ps where
    a: "handlePermissionChange 0 Read initialRolesState = Inr s1" and
    b: "handlePermissionChange 0 Read s1 = Inr s2" and
    c: "set ps = set (permissions (resources (editingRole initialRolesState) ! nat 0))" and
    d: "s2 = initialRolesState\<lparr>editingRole := (editingRole initialRolesState)\<lparr>resources :=
            (resources (editingRole initialRolesState))[nat 0 :=
               (resources (editingRole initialRolesState) ! nat 0)\<lparr>permissions := ps\<rparr>]\<rparr>\<rparr>"
    by blast
  have "set (permissions (resources (editingRole s2) ! 0)) = {Read, Add, Delete}"
    using c unfolding d by (simp add: initialRolesState_def initialRoles_def)
  moreover have "Resource.name (resources (editingRole s2) ! 0) = ''Group Members''"
    unfolding d by (simp add: initialRolesState_def initialRoles_def)
  moreover have "tl (resources (editingRole s2)) = tl (resources (editingRole initialRolesState))"
    unfolding d by (simp add: initialRolesState_def initialRoles_def)
  ultimately show ?thesis using a b h2 by blast
qed

section \<open>Attaching and detaching a resource\<close>

text \<open>
  C4. Attaching a resource appends the attachment \<open>(r, [])\<close> behind the resources the
  editing copy already has, in their order; removing the resource at the last index of
  the result gives back the editing copy as it was, hence its resource list. The equation
  holds for every name \<open>r\<close>, present or not.
\<close>

theorem attach_then_detach:
  "resources (editingRole (attachResource r s)) =
     resources (editingRole s) @ [\<lparr>Resource.name = r, permissions = []\<rparr>] \<and>
   editingRole (handleRemoveResource
      (int (length (resources (editingRole (attachResource r s)))) - 1) (attachResource r s))
     = editingRole s"
  by (simp add: attachResource_def handleRemoveResource_def splice1_def)

text \<open>
  C9. Attaching a resource, removing a resource and toggling a permission leave the list
  of entities and the selection as they are: only the editing copy changes (attaching
  also closes the dropdown). Toggling returns a state exactly when the index lies in the
  resource table; otherwise it throws and no setter runs.
\<close>

theorem draft_edits_frame:
  "roles (attachResource r s) = roles s \<and>
   selectedRoleId (attachResource r s) = selectedRoleId s \<and>
   roles (handleRemoveResource i s) = roles s \<and>
   selectedRoleId (handleRemoveResource i s) = selectedRoleId s \<and>
   (\<forall>s'. handlePermissionChange i p s = Inr s' \<longrightarrow>
      roles s' = roles s \<and> selectedRoleId s' = selectedRoleId s) \<and>
   (0 \<le> i \<and> i < int (length (resources (editingRole s))) \<longrightarrow>
      (\<exists>s'. handlePermissionChange i p s = Inr s')) \<and>
   (\<forall>e. handlePermissionChange i p s = Inl e \<longrightarrow>
      \<not> (0 \<le> i \<and> i < int (length (resources (editingRole s)))))"
  by (auto simp: attachResource_def handleRemoveResource_def handlePermissionChange_def Let_def
      split: if_splits)

theorem draft_edits_frame_witness:
  "(0::int) \<le> 0 \<and> (0::int) < int (length (resources (editingRole initialRolesState))) \<and>
   (\<exists>s'. handlePermissionChange 0 Edit initialRolesState = Inr s' \<and>
      roles s' = initialRoles \<and> selectedRoleId s' = Num 1) \<and>
   handlePermissionChange 4 Edit initialRolesState = Inl TypeError \<and>
   \<not> (4::int) < int (length (resources (editingRole initialRolesState)))"
proof -
  have h: "(0::int) \<le> 0 \<and> (0::int) < int (length (resources (editingRole initialRolesState)))"
    by (simp add: initialRolesState_def initialRoles_def)
  have t: "handlePermissionChange 4 Edit initialRolesState = Inl TypeError"
    by (simp add: handlePermissionChange_def initialRolesState_def initialRoles_def)
  from draft_edits_frame [of "''Audit Logs''" initialRolesState 0 Edit] h
  have a: "\<exists>s'. handlePermissionChange 0 Edit initialRolesState = Inr s' \<and>
      roles s' = initialRoles \<and> selectedRoleId s' = Num 1"
    by (auto simp: initialRolesState_def)
  from draft_edits_frame [of "''Audit Logs''" initialRolesState 4 Edit] t
  have b: "\<not> (4::int) < int (length (resources (editingRole initialRolesState)))"
    by simp
  from h a t b show ?thesis by blast
qed

section \<open>Selecting an entity\<close>

lemma find_by_ident:
  "distinct (map ident xs) \<Longrightarrow> E \<in> set xs \<Longrightarrow> find (\<lambda>r. ident r = ident E) xs = Some E"
  by (induction xs) (auto simp: image_iff)

text \<open>
  C5. In a list whose identifiers are pairwise different, as the data model has them,
  selecting the identifier of an entity \<open>E\<close> of the list sets the selection to that
  identifier and makes the editing copy equal to \<open>E\<close>, field by field and resource by
  resource; the list is not changed. The result does not depend on the editing copy
  \<open>d\<close> held before, so edits that were not saved are gone.
\<close>

theorem select_existing:
  assumes "E \<in> set (roles s)" and "distinct (map ident (roles s))"
  shows "selectedRoleId (handleSelectRole (ident E) s) = ident E \<and>
         editingRole (handleSelectRole (ident E) s) = E \<and>
         roles (handleSelectRole (ident E) s) = roles s \<and>
         handleSelectRole (ident E) (s\<lparr>editingRole := d\<rparr>) = handleSelectRole (ident E) s"
  using find_by_ident [OF assms(2) assms(1)]
  by (simp add: handleSelectRole_def)

theorem select_existing_witness:
  "initialRoles ! 1 \<in> set (roles initialRolesState) \<and>
   distinct (map ident (roles initialRolesState)) \<and>
   selectedRoleId (handleSelectRole (Num 2) initialRolesState) = Num 2 \<and>
   editingRole (handleSelectRole (Num 2) initialRolesState) = initialRoles ! 1 \<and>
   editingRole (handleSelectRole (Num 2) (handleRoleNameChange ''edited'' initialRolesState))
     = initialRoles ! 1"
proof -
  have h1: "initialRoles ! 1 \<in> set (roles initialRolesState)"
    by (simp add: initialRolesState_def initialRoles_def)
  have h2: "distinct (map ident (roles initialRolesState))"
    by (simp add: initialRolesState_def initialRoles_def)
  have i: "ident (initialRoles ! 1) = Num 2"
    by (simp add: initialRoles_def)
  have e: "handleRoleNameChange ''edited'' initialRolesState =
           initialRolesState\<lparr>editingRole := (editingRole initialRolesState)\<lparr>name := ''edited''\<rparr>\<rparr>"
    by (simp add: handleRoleNameChange_def)
  from select_existing [OF h1 h2, of "(editingRole initialRolesState)\<lparr>name := ''edited''\<rparr>"]
  show ?thesis
    using h1 h2 unfolding i e by simp
qed

text \<open>
  C10. Selecting an identifier that no entity of the list carries sets the selection to
  that identifier and keeps the editing copy: afterwards the selection finds no entity
  in the list, and the editing copy is the one from before.
\<close>

theorem select_missing_id:
  assumes "roleId \<notin> ident ` set (roles s)"
  shows "selectedRoleId (handleSelectRole roleId s) = roleId \<and>
         editingRole (handleSelectRole roleId s) = editingRole s \<and>
         roles (handleSelectRole roleId s) = roles s \<and>
         find (\<lambda>r. ident r = selectedRoleId (handleSelectRole roleId s))
              (roles (handleSelectRole roleId s)) = None"
proof -
  have "find (\<lambda>r. ident r = roleId) (roles s) = None"
    using assms by (auto simp: find_None_iff)
  then show ?thesis by (simp add: handleSelectRole_def)
qed

theorem select_missing_id_witness:
  "Num 7 \<notin> ident ` set (roles initialRolesState) \<and>
   selectedRoleId (handleSelectRole (Num 7) initialRolesState) = Num 7 \<and>
   editingRole (handleSelectRole (Num 7) initialRolesState) = hd initialRoles"
proof -
  have h: "Num 7 \<notin> ident ` set (roles initialRolesState)"
    by (simp add: initialRolesState_def initialRoles_def)
  from select_missing_id [OF h] show ?thesis
    using h by (simp add: initialRolesState_def)
qed

section \<open>Saving the editing copy\<close>

lemma save_at_unique_position:
  assumes "distinct (map ident xs)" and "j < length xs" and "ident (xs ! j) = ident d"
  shows "map (\<lambda>role. if ident role = ident d then d else role) xs = xs[j := d]"
proof (rule nth_equalityI)
  show "length (map (\<lambda>role. if ident role = ident d then d else role) xs) = length (xs[j := d])"
    by simp
next
  fix k
  assume "k < length (map (\<lambda>role. if ident role = ident d then d else role) xs)"
  then have k: "k < length xs" by simp
  show "map (\<lambda>role. if ident role = ident d then d else role) xs ! k = xs[j := d] ! k"
  proof (cases "k = j")
    case True
    with assms show ?thesis by simp
  next
    case False
    have "map ident xs ! k \<noteq> map ident xs ! j"
      using nth_eq_iff_index_eq [of "map ident xs" k j] assms(1,2) k False by simp
    then have "ident (xs ! k) \<noteq> ident d"
      using assms(2,3) k by simp
    with k False show ?thesis by simp
  qed
qed

text \<open>
  C6. Saving keeps the number of entities and the other cells of the state. At every
  position of the list, the entity is replaced by the editing copy when it carries the
  identifier of the editing copy, and stays otherwise. When the identifiers of the list
  are pairwise different and position \<open>j\<close> carries the identifier of the editing copy,
  the new list is the old one with position \<open>j\<close> overwritten: exactly that entry
  changes, in place. When no entity carries the identifier, the list stays as it is.
\<close>

theorem save_replaces_matching_entry:
  "length (roles (handleSaveChanges s)) = length (roles s) \<and>
   (\<forall>j < length (roles s). roles (handleSaveChanges s) ! j =
      (if ident (roles s ! j) = ident (editingRole s) then editingRole s else roles s ! j)) \<and>
   (\<forall>j < length (roles s).
      distinct (map ident (roles s)) \<and> ident (roles s ! j) = ident (editingRole s) \<longrightarrow>
      roles (handleSaveChanges s) = (roles s)[j := editingRole s]) \<and>
   (ident (editingRole s) \<notin> ident ` set (roles s) \<longrightarrow> roles (handleSaveChanges s) = roles s) \<and>
   selectedRoleId (handleSaveChanges s) = selectedRoleId s \<and>
   editingRole (handleSaveChanges s) = editingRole s \<and>
   deletingRoleId (handleSaveChanges s) = deletingRoleId s"
proof -
  have "ident (editingRole s) \<notin> ident ` set (roles s) \<Longrightarrow>
        map (\<lambda>role. if ident role = ident (editingRole s) then editingRole s else role) (roles s)
          = roles s"
    by (rule map_idI) (auto simp: image_iff)
  then show ?thesis
    by (simp add: handleSaveChanges_def save_at_unique_position)
qed

text \<open>
  The scenario of the specification, on the seed data: after \<^verbatim>\<open>handleSelectRole(1)\<close>
  and \<^verbatim>\<open>handlePermissionChange(0, 'Edit')\<close>, saving makes the permissions of the first
  resource of the first role \<^verbatim>\<open>Read, Add, Delete, Edit\<close> and keeps the roles 2 and 3.
  And in \<open>emptiedRolesState\<close>, where the editing copy is the deleted role 1, saving
  leaves the list empty.
\<close>

theorem save_replaces_matching_entry_witness:
  "(\<exists>s1. handlePermissionChange 0 Edit (handleSelectRole (Num 1) initialRolesState) = Inr s1 \<and>
     (0::nat) < length (roles s1) \<and>
     distinct (map ident (roles s1)) \<and>
     ident (roles s1 ! 0) = ident (editingRole s1) \<and>
     length (roles (handleSaveChanges s1)) = 3 \<and>
     permissions (resources (roles (handleSaveChanges s1) ! 0) ! 0) = [Read, Add, Delete, Edit] \<and>
     roles (handleSaveChanges s1) = initialRoles[0 := editingRole s1]) \<and>
   ident (editingRole emptiedRolesState) \<notin> ident ` set (roles emptiedRolesState) \<and>
   roles (handleSaveChanges emptiedRolesState) = []"
proof -
  let ?s0 = "handleSelectRole (Num 1) initialRolesState"
  define s1 where "s1 = ?s0\<lparr>editingRole := (editingRole ?s0)\<lparr>resources :=
     (resources (editingRole ?s0))[0 := (resources (editingRole ?s0) ! 0)
        \<lparr>permissions := [Read, Add, Delete, Edit]\<rparr>]\<rparr>\<rparr>"
  have t: "handlePermissionChange 0 Edit ?s0 = Inr s1"
    by (simp add: s1_def handlePermissionChange_def handleSelectRole_def initialRolesState_def
        initialRoles_def Let_def)
  have r: "roles s1 = initialRoles"
    by (simp add: s1_def handleSelectRole_def initialRolesState_def initialRoles_def)
  have d: "permissions (resources (editingRole s1) ! 0) = [Read, Add, Delete, Edit]"
    by (simp add: s1_def handleSelectRole_def initialRolesState_def initialRoles_def)
  have i: "ident (editingRole s1) = Num 1"
    by (simp add: s1_def handleSelectRole_def initialRolesState_def initialRoles_def)
  have l: "length (roles s1) = 3" "ident (roles s1 ! 0) = Num 1" "distinct (map ident (roles s1))"
    unfolding r by (simp_all add: initialRoles_def)
  from save_replaces_matching_entry [of s1]
  have "length (roles (handleSaveChanges s1)) = 3 \<and>
        roles (handleSaveChanges s1) ! 0 = editingRole s1 \<and>
        roles (handleSaveChanges s1) = (roles s1)[0 := editingRole s1]"
    using l i by simp
  then have first: "\<exists>s1. handlePermissionChange 0 Edit ?s0 = Inr s1 \<and>
     (0::nat) < length (roles s1) \<and>
     distinct (map ident (roles s1)) \<and>
     ident (roles s1 ! 0) = ident (editingRole s1) \<and>
     length (roles (handleSaveChanges s1)) = 3 \<and>
     permissions (resources (roles (handleSaveChanges s1) ! 0) ! 0) = [Read, Add, Delete, Edit] \<and>
     roles (handleSaveChanges s1) = initialRoles[0 := editingRole s1]"
    using t d l i r by auto
  have e: "roles emptiedRolesState = []"
    by (simp add: emptiedRolesState_eq)
  then have m: "ident (editingRole emptiedRolesState) \<notin> ident ` set (roles emptiedRolesState)"
    by simp
  from save_replaces_matching_entry [of emptiedRolesState] m
  have "roles (handleSaveChanges emptiedRolesState) = roles emptiedRolesState"
    by blast
  with first m e show ?thesis by simp
qed

section \<open>The invariants are kept\<close>

lemma entity_ok_update_permissions:
  assumes "entity_ok e" and "n < length (resources e)" and "distinct ps"
  shows "entity_ok (e\<lparr>resources := (resources e)[n := (resources e ! n)\<lparr>permissions := ps\<rparr>]\<rparr>)"
proof -
  have "map Resource.name ((resources e)[n := (resources e ! n)\<lparr>permissions := ps\<rparr>])
        = map Resource.name (resources e)"
    using assms(2) by (simp add: map_update list_update_same_conv)
  moreover have "list_all (\<lambda>r. distinct (permissions r))
        ((resources e)[n := (resources e ! n)\<lparr>permissions := ps\<rparr>])"
    using assms
    by (auto simp: entity_ok_def list_all_iff dest!: set_update_subset_insert [THEN subsetD])
  ultimately show ?thesis
    using assms(1) by (simp add: entity_ok_def)
qed

lemma distinct_toggled:
  "distinct ps \<Longrightarrow>
   distinct (if p \<in> set ps then filter (\<lambda>q. q \<noteq> p) ps else ps @ [p])"
  by simp

lemma state_ok_permission:
  assumes "state_ok s" and "handlePermissionChange i p s = Inr s'"
  shows "state_ok s'"
proof -
  let ?rs = "resources (editingRole s)"
  from assms(2) have rng: "0 \<le> i" "i < int (length ?rs)"
    by (auto simp: handlePermissionChange_def Let_def split: if_splits)
  then have n: "nat i < length ?rs" by simp
  let ?ps = "if p \<in> set (permissions (?rs ! nat i))
             then filter (\<lambda>q. q \<noteq> p) (permissions (?rs ! nat i))
             else permissions (?rs ! nat i) @ [p]"
  have s': "s' = s\<lparr>editingRole := (editingRole s)\<lparr>resources :=
                   ?rs[nat i := (?rs ! nat i)\<lparr>permissions := ?ps\<rparr>]\<rparr>\<rparr>"
    using assms(2) rng by (simp add: handlePermissionChange_def Let_def split: if_splits)
  have ok: "entity_ok (editingRole s)"
    using assms(1) by (simp add: state_ok_def)
  then have "distinct (permissions (?rs ! nat i))"
    using n by (simp add: entity_ok_def list_all_length)
  then have "distinct ?ps" by (rule distinct_toggled)
  with ok n have "entity_ok ((editingRole s)\<lparr>resources :=
                   ?rs[nat i := (?rs ! nat i)\<lparr>permissions := ?ps\<rparr>]\<rparr>)"
    by (rule entity_ok_update_permissions)
  then show ?thesis
    using assms(1) unfolding s' by (simp add: state_ok_def)
qed

lemma state_ok_select: "state_ok s \<Longrightarrow> state_ok (handleSelectRole roleId s)"
proof (cases "find (\<lambda>r. ident r = roleId) (roles s)")
  case None
  assume "state_ok s"
  with None show ?thesis by (simp add: state_ok_def handleSelectRole_def)
next
  case (Some role)
  assume ok: "state_ok s"
  from Some have "role \<in> set (roles s)"
    by (auto simp: find_Some_iff)
  with ok have "entity_ok role"
    by (simp add: state_ok_def list_all_iff)
  with Some ok show ?thesis by (simp add: state_ok_def handleSelectRole_def)
qed

lemma state_ok_name: "state_ok s \<Longrightarrow> state_ok (handleRoleNameChange v s)"
  by (simp add: state_ok_def handleRoleNameChange_def entity_ok_def)

lemma state_ok_description: "state_ok s \<Longrightarrow> state_ok (handleRoleDescriptionChange v s)"
  by (simp add: state_ok_def handleRoleDescriptionChange_def entity_ok_def)

lemma state_ok_dropdown:
  "state_ok s \<Longrightarrow> state_ok (handleClickOutside s)"
  "state_ok s \<Longrightarrow> state_ok (toggleResourceDropdown s)"
  by (simp_all add: state_ok_def handleClickOutside_def toggleResourceDropdown_def)

lemma state_ok_save: "state_ok s \<Longrightarrow> state_ok (handleSaveChanges s)"
  by (auto simp: state_ok_def handleSaveChanges_def list_all_iff)

lemma state_ok_add:
  "state_ok s \<Longrightarrow> state_ok (handleAddRole s)"
  "state_ok t \<Longrightarrow> state_ok (handleAddRule t)"
  by (simp_all add: state_ok_def handleAddRole_def handleAddRule_def Let_def entity_ok_def)

lemma state_ok_delete:
  "state_ok s \<Longrightarrow> state_ok (handleDeleteRole roleId s)"
  "state_ok s \<Longrightarrow> state_ok (cancelDeleteRole s)"
  by (simp_all add: state_ok_def handleDeleteRole_def cancelDeleteRole_def)

lemma state_ok_confirm: "state_ok s \<Longrightarrow> state_ok (confirmDeleteRole s)"
proof (cases "deletingRoleId s")
  case None
  assume "state_ok s"
  with None show ?thesis by (simp add: confirmDeleteRole_def)
next
  case (Some d)
  assume ok: "state_ok s"
  let ?us = "filter (\<lambda>role. ident role \<noteq> d) (roles s)"
  have all: "list_all entity_ok ?us"
    using ok by (simp add: state_ok_def list_all_iff)
  have hd_ok: "\<And>r rs. ?us = r # rs \<Longrightarrow> entity_ok r"
    using all by simp
  show ?thesis
    using Some ok all hd_ok
    by (auto simp: confirmDeleteRole_def Let_def state_ok_def split: list.splits)
qed

lemma splice1_set: "set (splice1 i xs) \<subseteq> set xs"
  by (auto simp: splice1_def Let_def dest: in_set_takeD in_set_dropD)

lemma splice1_map: "map f (splice1 i xs) = splice1 i (map f xs)"
  by (simp add: splice1_def Let_def take_map drop_map)

lemma splice1_distinct: "distinct xs \<Longrightarrow> distinct (splice1 i xs)"
  using set_take_disj_set_drop_if_distinct [of xs]
  by (simp add: splice1_def Let_def)

lemma state_ok_remove: "state_ok s \<Longrightarrow> state_ok (handleRemoveResource index s)"
  using splice1_set [of index "resources (editingRole s)"]
  by (auto simp: state_ok_def handleRemoveResource_def entity_ok_def splice1_map
      splice1_distinct list_all_iff)

lemma state_ok_attach:
  "state_ok s \<Longrightarrow> resource \<notin> Resource.name ` set (resources (editingRole s)) \<Longrightarrow>
   state_ok (attachResource resource s)"
  by (simp add: state_ok_def attachResource_def entity_ok_def)

lemma state_ok_initial: "state_ok initialRolesState" "state_ok initialRulesState"
  by (simp_all add: state_ok_def entity_ok_def initialRolesState_def initialRoles_def
      initialRulesState_def initialRules_def)

lemma step_state_ok: "step s s' \<Longrightarrow> state_ok s \<Longrightarrow> state_ok s'"
proof (induction rule: step.induct)
  case (s_permission i p s s')
  then show ?case by (blast intro: state_ok_permission)
next
  case (s_attach resource s)
  then show ?case by (blast intro: state_ok_attach)
qed (simp_all add: state_ok_select state_ok_name state_ok_description state_ok_dropdown
      state_ok_save state_ok_add state_ok_delete state_ok_confirm state_ok_remove)

lemma stepRules_state_ok: "stepRules s s' \<Longrightarrow> state_ok s \<Longrightarrow> state_ok s'"
proof (induction rule: stepRules.induct)
  case (u_permission i p s s')
  then show ?case by (blast intro: state_ok_permission)
next
  case (u_attach resource s)
  then show ?case by (blast intro: state_ok_attach)
qed (simp_all add: rules_handlers_are_roles_handlers state_ok_select state_ok_name
      state_ok_dropdown state_ok_save state_ok_add state_ok_delete state_ok_confirm
      state_ok_remove)

text \<open>
  C8. Every action of \<^verbatim>\<open>GroupRolesClient\<close> takes a well-formed state to a well-formed
  state, and every state \<open>t\<close> reached from the seed data is well formed: every role of
  the list and the editing copy have pairwise different resource names and no permission
  twice in a permission list.
\<close>

theorem invariant_kept:
  "(state_ok s \<and> step s s' \<longrightarrow> state_ok s') \<and> (reachable t \<longrightarrow> state_ok t)"
proof
  show "state_ok s \<and> step s s' \<longrightarrow> state_ok s'"
    by (blast intro: step_state_ok)
next
  have "reachable t \<Longrightarrow> state_ok t"
  proof (induction rule: reachable.induct)
    case r_init
    show ?case by (rule state_ok_initial)
  next
    case (r_step s s')
    then show ?case by (blast intro: step_state_ok)
  qed
  then show "reachable t \<longrightarrow> state_ok t" by blast
qed

theorem invariant_kept_witness:
  "state_ok initialRolesState \<and>
   step initialRolesState (attachResource ''Audit Logs'' initialRolesState) \<and>
   state_ok (attachResource ''Audit Logs'' initialRolesState) \<and>
   reachable (handleSaveChanges (attachResource ''Audit Logs'' initialRolesState)) \<and>
   state_ok (handleSaveChanges (attachResource ''Audit Logs'' initialRolesState))"
proof -
  let ?s = "attachResource ''Audit Logs'' initialRolesState"
  have "''Audit Logs'' \<notin> Resource.name ` set (resources (editingRole initialRolesState))"
    by (simp add: initialRolesState_def initialRoles_def)
  then have st: "step initialRolesState ?s"
    by (rule s_attach)
  have ok: "state_ok initialRolesState"
    by (simp add: state_ok_def entity_ok_def initialRolesState_def initialRoles_def)
  from r_init st have "reachable ?s" by (rule r_step)
  then have r: "reachable (handleSaveChanges ?s)"
    using s_save by (rule r_step)
  from invariant_kept [of initialRolesState ?s "handleSaveChanges ?s"] ok st r
  show ?thesis by blast
qed

text \<open>The same invariant holds in \<^verbatim>\<open>SecurityRulesClient\<close>.\<close>

lemma reachableRules_state_ok: "reachableRules s \<Longrightarrow> state_ok s"
proof (induction rule: reachableRules.induct)
  case ur_init
  show ?case by (rule state_ok_initial)
next
  case (ur_step s s')
  then show ?case by (blast intro: stepRules_state_ok)
qed

end
